theory Spec2Isabelle
  imports Complex_Main "HOL-Library.Log_Nat"
begin

section \<open>JavaScript numbers\<close>

text \<open>
  Every number the matching engine computes is a JavaScript Number, an IEEE 754 binary64
  value. A finite binary64 value is a rational, so the model keeps numbers as \<open>rat\<close>
  and rounds the exact result of each arithmetic operation to the nearest value with a
  53-bit significand, ties to the even significand, as the hardware does.

  The exponent range is not bounded in the model. The engine only divides one array
  length by another (both below \<open>2 ^ 32\<close>, the divisor at least one), multiplies by the
  literals 0.4, 0.2 and 0.1 and adds four such terms, so every value it reaches is zero
  or lies between \<open>2 ^ -40\<close> and \<open>2 ^ 40\<close>: no overflow, no subnormal, no NaN.
\<close>

definition round_half_even :: "rat \<Rightarrow> int" where
  "round_half_even x =
     (let f = \<lfloor>x\<rfloor>; d = x - of_int f
      in if d < 1 / 2 then f
         else if 1 / 2 < d then f + 1
         else if even f then f else f + 1)"

text \<open>\<open>float_exponent x\<close> is the \<open>e\<close> with \<open>2 ^ e \<le> \<bar>x\<bar> < 2 ^ (e + 1)\<close>, for \<open>x \<noteq> 0\<close>.\<close>

definition float_exponent :: "rat \<Rightarrow> int" where
  "float_exponent x =
     (let (p, q) = quotient_of \<bar>x\<bar>; d = bitlen p - bitlen q
      in if of_int q * (2::rat) powi d \<le> of_int p then d else d - 1)"

definition ulp :: "rat \<Rightarrow> rat" where
  "ulp x = 2 powi (float_exponent x - 52)"

definition round_double :: "rat \<Rightarrow> rat" where
  "round_double x = (if x = 0 then 0 else of_int (round_half_even (x / ulp x)) * ulp x)"

text \<open>The operators \<open>+\<close>, \<open>*\<close> and \<open>/\<close> of the source, and a decimal literal.\<close>

definition js_add :: "rat \<Rightarrow> rat \<Rightarrow> rat" where
  "js_add x y = round_double (x + y)"

definition js_mul :: "rat \<Rightarrow> rat \<Rightarrow> rat" where
  "js_mul x y = round_double (x * y)"

definition js_div :: "rat \<Rightarrow> rat \<Rightarrow> rat" where
  "js_div x y = round_double (x / y)"

definition js_lit :: "rat \<Rightarrow> rat" where
  "js_lit x = round_double x"

section \<open>JavaScript strings\<close>

text \<open>
  A string is a list of characters, and a character stands for a UTF-16 code unit below
  256 (ASCII and the Latin-1 supplement). On these code units \<open>toLowerCase\<close> works
  character by character: it adds 32 to \<open>A\<close>..\<open>Z\<close> (65..90) and to the capital letters
  192..222 of Latin-1 other than the multiplication sign 215, and leaves every other code
  unit as it is. The class \<open>\s\<close> of the regular expression holds, below 256, tab, line
  feed, vertical tab, form feed, carriage return, space and the no-break space 160.
  Text with code units from 256 on is outside the type.
\<close>

definition toLowerCase_char :: "char \<Rightarrow> char" where
  "toLowerCase_char c =
     (let n = (of_char c :: nat)
      in if (65 \<le> n \<and> n \<le> 90) \<or> (192 \<le> n \<and> n \<le> 222 \<and> n \<noteq> 215)
         then char_of (n + 32) else c)"

definition toLowerCase :: "string \<Rightarrow> string" where
  "toLowerCase s = map toLowerCase_char s"

definition is_space :: "char \<Rightarrow> bool" where
  "is_space c = ((of_char c :: nat) \<in> {9, 10, 11, 12, 13, 32, 160})"

text \<open>
  \<open>s.split(/\s+/)\<close>: the pieces of \<open>s\<close> between maximal runs of whitespace. A run at
  the start or at the end of \<open>s\<close> leaves an empty piece there, and the empty string
  splits into the one piece \<open>""\<close>.
\<close>

function split_ws :: "string \<Rightarrow> string list" where
  "split_ws s =
     takeWhile (\<lambda>c. \<not> is_space c) s #
       (case dropWhile (\<lambda>c. \<not> is_space c) s of
          [] \<Rightarrow> []
        | c # cs \<Rightarrow> split_ws (dropWhile is_space cs))"
  by pat_completeness auto
termination
proof (relation "measure length")
  show "wf (measure length)" by simp
next
  fix s :: string and c cs
  assume d: "dropWhile (\<lambda>c. \<not> is_space c) s = c # cs"
  have "length (dropWhile is_space cs) \<le> length cs"
    by (rule length_dropWhile_le)
  also have "length cs < length (c # cs)" by simp
  also have "length (c # cs) \<le> length s"
    unfolding d [symmetric] by (rule length_dropWhile_le)
  finally show "(dropWhile is_space cs, s) \<in> measure length" by simp
qed

declare split_ws.simps [simp del]

section \<open>Text similarity\<close>

text \<open>
  \<^verbatim>\<open>
  function calculateTextSimilarity(text1, text2) {
    const words1 = text1.toLowerCase().split(/\s+/);
    const words2 = text2.toLowerCase().split(/\s+/);
    const intersection = words1.filter(word => words2.includes(word));
    const union = [...new Set([...words1, ...words2])];
    return intersection.length / union.length;
  }
  \<close>
  \<open>intersection\<close> is a filter of the array \<open>words1\<close>: a word that occurs twice in
  \<open>words1\<close> and once in \<open>words2\<close> is kept twice. \<open>union\<close> goes through a \<open>Set\<close>
  and has no duplicates. The divisor \<open>union.length\<close> is never zero
  (\<open>union_words_nonempty\<close> below), so the quotient is a finite number.
\<close>

definition words_of :: "string \<Rightarrow> string list" where
  "words_of text = split_ws (toLowerCase text)"

definition intersection_words :: "string list \<Rightarrow> string list \<Rightarrow> string list" where
  "intersection_words words1 words2 = filter (\<lambda>word. word \<in> set words2) words1"

text \<open>\<open>[...new Set(xs)]\<close>: the elements of \<open>xs\<close> in order of first occurrence.\<close>

definition Set_to_array :: "'a list \<Rightarrow> 'a list" where
  "Set_to_array xs = foldl (\<lambda>s x. if x \<in> set s then s else s @ [x]) [] xs"

definition union_words :: "string list \<Rightarrow> string list \<Rightarrow> string list" where
  "union_words words1 words2 = Set_to_array (words1 @ words2)"

definition calculateTextSimilarity :: "string \<Rightarrow> string \<Rightarrow> rat" where
  "calculateTextSimilarity text1 text2 =
     (let words1 = words_of text1; words2 = words_of text2
      in js_div (of_nat (length (intersection_words words1 words2)))
                (of_nat (length (union_words words1 words2))))"

text \<open>
  The Jaccard coefficient of the two token sets, in the words of the specification:
  the size of the intersection divided by the size of the union.
\<close>

definition jaccard :: "string \<Rightarrow> string \<Rightarrow> rat" where
  "jaccard a b =
     js_div (of_nat (card (set (words_of a) \<inter> set (words_of b))))
            (of_nat (card (set (words_of a) \<union> set (words_of b))))"

text \<open>
  \<^verbatim>\<open>
  function extractTags(text) {
    const words = text.toLowerCase().split(/\s+/);
    return words.filter(word => word.length > 3).slice(0, 10);
  }
  \<close>
\<close>

definition extractTags :: "string \<Rightarrow> string list" where
  "extractTags text = take 10 (filter (\<lambda>word. 3 < length word) (words_of text))"

section \<open>Items, matches and the store\<close>

text \<open>
  An item is the object built by the route \<open>POST /api/items\<close>. The fields that the
  matching engine never reads (dates, contact, images, view counter) are left out.
  \<open>type\<close> and \<open>status\<close> are strings in the source and stay strings here: the
  route accepts any non-empty \<open>type\<close>.
\<close>

record item =
  item_id :: string
  title :: string
  description :: string
  category :: string
  item_type :: string
  location :: string
  userId :: string
  status :: string
  tags :: "string list"

text \<open>
  The fields \<open>id\<close>, \<open>status\<close> and \<open>method\<close> of a match record are named
  \<open>match_id\<close>, \<open>match_status\<close> and \<open>match_method\<close> here.
\<close>

record match_record =
  match_id :: string
  lostItemId :: string
  foundItemId :: string
  confidence :: rat
  match_status :: string
  createdAt :: string
  match_method :: string

text \<open>
  A JavaScript \<open>Map\<close> keeps its entries in insertion order; \<open>set\<close> on a key that is
  present replaces the value in place, on a new key it appends the entry.
\<close>

fun Map_set :: "'k \<Rightarrow> 'v \<Rightarrow> ('k \<times> 'v) list \<Rightarrow> ('k \<times> 'v) list" where
  "Map_set k v [] = [(k, v)]"
| "Map_set k v ((k', v') # m) = (if k' = k then (k, v) # m else (k', v') # Map_set k v m)"

definition Map_get :: "('k \<times> 'v) list \<Rightarrow> 'k \<Rightarrow> 'v option" where
  "Map_get m k = map_of m k"

definition Map_values :: "('k \<times> 'v) list \<Rightarrow> 'v list" where
  "Map_values m = map snd m"

definition Map_keys :: "('k \<times> 'v) list \<Rightarrow> 'k list" where
  "Map_keys m = map fst m"

record storage =
  items :: "(string \<times> item) list"
  matches :: "(string \<times> match_record) list"

section \<open>The matching engine\<close>

text \<open>
  \<^verbatim>\<open>
  function calculateMatchConfidence(item1, item2) {
    let confidence = 0;
    if (item1.category === item2.category) { confidence += 0.3; }
    const titleSimilarity = calculateTextSimilarity(item1.title, item2.title);
    confidence += titleSimilarity * 0.4;
    const descSimilarity = calculateTextSimilarity(item1.description, item2.description);
    confidence += descSimilarity * 0.2;
    const locationSimilarity = calculateTextSimilarity(item1.location, item2.location);
    confidence += locationSimilarity * 0.1;
    return Math.min(confidence, 1.0);
  }
  \<close>
\<close>

definition calculateMatchConfidence :: "item \<Rightarrow> item \<Rightarrow> rat" where
  "calculateMatchConfidence item1 item2 =
     (let confidence = 0;
          confidence = (if category item1 = category item2
                        then js_add confidence (js_lit (3 / 10)) else confidence);
          titleSimilarity = calculateTextSimilarity (title item1) (title item2);
          confidence = js_add confidence (js_mul titleSimilarity (js_lit (4 / 10)));
          descSimilarity = calculateTextSimilarity (description item1) (description item2);
          confidence = js_add confidence (js_mul descSimilarity (js_lit (2 / 10)));
          locationSimilarity = calculateTextSimilarity (location item1) (location item2);
          confidence = js_add confidence (js_mul locationSimilarity (js_lit (1 / 10)))
      in min confidence 1)"

text \<open>
  \<open>findPotentialMatches\<close> first filters the item store, then loops over the
  candidates. \<open>generateId()\<close> and \<open>new Date().toISOString()\<close> read the clock and the
  random generator; the model takes their results as the functions \<open>generateId\<close> and
  \<open>now\<close>, whose argument is the number of records the run has created so far.
\<close>

definition oppositeType :: "item \<Rightarrow> string" where
  "oppositeType item = (if item_type item = ''lost'' then ''found'' else ''lost'')"

definition potentialMatches :: "storage \<Rightarrow> item \<Rightarrow> item list" where
  "potentialMatches st item =
     filter (\<lambda>otherItem. item_type otherItem = oppositeType item \<and>
                         category otherItem = category item \<and>
                         status otherItem = ''active'')
            (Map_values (items st))"

definition matchRecord :: "string \<Rightarrow> string \<Rightarrow> item \<Rightarrow> item \<Rightarrow> rat \<Rightarrow> match_record" where
  "matchRecord matchId date item match c =
     \<lparr> match_id = matchId,
       lostItemId = (if item_type item = ''lost'' then item_id item else item_id match),
       foundItemId = (if item_type item = ''found'' then item_id item else item_id match),
       confidence = c,
       match_status = ''pending'',
       createdAt = date, match_method = ''ai'' \<rparr>"

fun match_loop ::
  "(nat \<Rightarrow> string) \<Rightarrow> (nat \<Rightarrow> string) \<Rightarrow> item \<Rightarrow> item list \<Rightarrow> nat \<Rightarrow>
   (string \<times> match_record) list \<Rightarrow> match_record list \<times> (string \<times> match_record) list" where
  "match_loop generateId now item [] n ms = ([], ms)"
| "match_loop generateId now item (match # rest) n ms =
     (let confidence = calculateMatchConfidence item match
      in if js_lit (6 / 10) < confidence
         then let matchId = generateId n;
                  r = matchRecord matchId (now n) item match confidence;
                  (out, ms') = match_loop generateId now item rest (Suc n) (Map_set matchId r ms)
              in (r # out, ms')
         else match_loop generateId now item rest n ms)"

definition findPotentialMatches ::
  "(nat \<Rightarrow> string) \<Rightarrow> (nat \<Rightarrow> string) \<Rightarrow> storage \<Rightarrow> item \<Rightarrow> match_record list \<times> storage" where
  "findPotentialMatches generateId now st item =
     (let (out, ms) = match_loop generateId now item (potentialMatches st item) 0 (matches st)
      in (out, st\<lparr>matches := ms\<rparr>))"

section \<open>Submitting an item\<close>

text \<open>
  The route \<open>POST /api/items\<close> for a request without uploaded files. A body field is
  absent (\<open>None\<close>) or a string; \<open>!v\<close> holds for an absent field and for the empty
  string. A request that fails the check is answered with status 400 before the item is
  built; otherwise the item is stored under a new id, matched, and returned with status
  201. The notification of the owners writes nothing to the store and is left out.
\<close>

record item_request =
  req_title :: "string option"
  req_description :: "string option"
  req_category :: "string option"
  req_type :: "string option"
  req_location :: "string option"
  req_userId :: string

datatype http_error = Http400 string | Http500 string

definition falsy :: "string option \<Rightarrow> bool" where
  "falsy v = (v = None \<or> v = Some [])"

definition post_item ::
  "(nat \<Rightarrow> string) \<Rightarrow> (nat \<Rightarrow> string) \<Rightarrow> item_request \<Rightarrow> storage \<Rightarrow>
   (http_error + item) \<times> storage" where
  "post_item generateId now req st =
     (if falsy (req_title req) \<or> falsy (req_description req) \<or> falsy (req_category req) \<or>
         falsy (req_type req) \<or> falsy (req_location req)
      then (Inl (Http400 ''Title, description, category, type, and location are required''), st)
      else
        let itemId = generateId 0;
            item = \<lparr> item_id = itemId,
                     title = the (req_title req),
                     description = the (req_description req),
                     category = the (req_category req),
                     item_type = the (req_type req),
                     location = the (req_location req),
                     userId = req_userId req,
                     status = ''active'',
                     tags = extractTags (the (req_title req) @ '' '' @ the (req_description req)) \<rparr>;
            st1 = st\<lparr>items := Map_set itemId item (items st)\<rparr>;
            (found, st2) = findPotentialMatches (\<lambda>k. generateId (Suc k)) now st1 item
        in (Inr item, st2))"

text \<open>A sequence of submissions, each with the ids and dates its handler draws.\<close>

fun post_items ::
  "((nat \<Rightarrow> string) \<times> (nat \<Rightarrow> string) \<times> item_request) list \<Rightarrow> storage \<Rightarrow> storage" where
  "post_items [] st = st"
| "post_items ((generateId, now, req) # rest) st =
     post_items rest (snd (post_item generateId now req st))"

section \<open>The invariant of the store\<close>

text \<open>
  Every item is stored under its own id, and \<open>Map\<close> keys are unique. A match record is
  well formed in a store when its \<open>lostItemId\<close> names a stored item of type \<open>lost\<close>,
  its \<open>foundItemId\<close> names a stored item of type \<open>found\<close> of the same category, the
  two ids differ and the confidence lies between 0 and 1.
\<close>

definition items_ok :: "storage \<Rightarrow> bool" where
  "items_ok st =
     (distinct (Map_keys (items st)) \<and> (\<forall>(k, it) \<in> set (items st). item_id it = k))"

definition match_ok :: "storage \<Rightarrow> match_record \<Rightarrow> bool" where
  "match_ok st r =
     (case (Map_get (items st) (lostItemId r), Map_get (items st) (foundItemId r)) of
        (Some l, Some f) \<Rightarrow>
          item_type l = ''lost'' \<and> item_type f = ''found'' \<and> category l = category f \<and>
          lostItemId r \<noteq> foundItemId r \<and> 0 \<le> confidence r \<and> confidence r \<le> 1
      | _ \<Rightarrow> False)"

definition store_ok :: "storage \<Rightarrow> bool" where
  "store_ok st = (items_ok st \<and> (\<forall>r \<in> set (Map_values (matches st)). match_ok st r))"

text \<open>
  A submission is regular when its \<open>type\<close> is \<open>lost\<close> or \<open>found\<close> and the id drawn for
  the new item is not yet a key of the item store; a sequence is regular when each
  submission is, in the store its predecessors leave.
\<close>

definition regular ::
  "(nat \<Rightarrow> string) \<Rightarrow> item_request \<Rightarrow> storage \<Rightarrow> bool" where
  "regular generateId req st =
     ((req_type req = Some ''lost'' \<or> req_type req = Some ''found'') \<and>
      generateId 0 \<notin> set (Map_keys (items st)))"

fun regular_run ::
  "((nat \<Rightarrow> string) \<times> (nat \<Rightarrow> string) \<times> item_request) list \<Rightarrow> storage \<Rightarrow> bool" where
  "regular_run [] st = True"
| "regular_run ((generateId, now, req) # rest) st =
     (regular generateId req st \<and> regular_run rest (snd (post_item generateId now req st)))"

section \<open>Example data\<close>

definition empty_storage :: storage where
  "empty_storage = \<lparr> items = [], matches = [] \<rparr>"

definition lost_phone :: item where
  "lost_phone =
     \<lparr> item_id = ''A'', title = ''iPhone 13 black'', description = ''cracked screen'',
       category = ''electronics'', item_type = ''lost'', location = ''library'',
       userId = ''u1'', status = ''active'',
       tags = [''iphone'', ''black'', ''cracked'', ''screen''] \<rparr>"

definition found_phone :: item where
  "found_phone =
     \<lparr> item_id = ''B'', title = ''black iPhone'', description = ''screen is cracked'',
       category = ''electronics'', item_type = ''found'', location = ''library 2nd floor'',
       userId = ''u2'', status = ''active'',
       tags = [''black'', ''iphone'', ''screen'', ''cracked''] \<rparr>"

definition found_twin :: item where
  "found_twin = lost_phone\<lparr>item_id := ''T'', item_type := ''found'', userId := ''u2''\<rparr>"

definition recovered_phone :: item where
  "recovered_phone = found_phone\<lparr>item_id := ''R'', status := ''recovered''\<rparr>"

definition phone_storage :: storage where
  "phone_storage =
     \<lparr> items = [(''B'', found_phone), (''R'', recovered_phone)], matches = [] \<rparr>"

definition lost_storage :: storage where
  "lost_storage = \<lparr> items = [(''A'', lost_phone)], matches = [] \<rparr>"

text \<open>A submission of a third type, stored beside the lost phone.\<close>

definition stolen_phone :: item where
  "stolen_phone = lost_phone\<lparr>item_id := ''S'', item_type := ''stolen''\<rparr>"

definition stolen_storage :: storage where
  "stolen_storage =
     \<lparr> items = [(''A'', lost_phone), (''S'', stolen_phone)], matches = [] \<rparr>"

definition old_match :: match_record where
  "old_match =
     \<lparr> match_id = ''old'', lostItemId = ''L'', foundItemId = ''B'', confidence = 3 / 4,
       match_status = ''confirmed'',
       createdAt = ''2023-12-31T00:00:00.000Z'', match_method = ''ai'' \<rparr>"

definition matched_storage :: storage where
  "matched_storage = phone_storage\<lparr>matches := [(''old'', old_match)]\<rparr>"

text \<open>An item whose three texts have whitespace at both ends.\<close>

definition padded_keys :: item where
  "padded_keys =
     \<lparr> item_id = ''K'', title = '' keys '', description = '' car keys '',
       category = ''keys'', item_type = ''lost'', location = '' gym '',
       userId = ''u1'', status = ''active'', tags = [''keys''] \<rparr>"

text \<open>A pair whose three similarities are 1/2, 1/2 and 0.\<close>

definition lost_bag :: item where
  "lost_bag =
     \<lparr> item_id = ''G'', title = ''red bag'', description = ''old wallet'',
       category = ''bags'', item_type = ''lost'', location = ''gym'',
       userId = ''u1'', status = ''active'', tags = [''wallet''] \<rparr>"

definition found_bag :: item where
  "found_bag =
     \<lparr> item_id = ''H'', title = ''red'', description = ''old'',
       category = ''bags'', item_type = ''found'', location = ''pool'',
       userId = ''u2'', status = ''active'', tags = [] \<rparr>"

definition bag_storage :: storage where
  "bag_storage = \<lparr> items = [(''H'', found_bag)], matches = [] \<rparr>"

definition ids :: "string \<Rightarrow> nat \<Rightarrow> string" where
  "ids p k = p @ replicate k (CHR ''+'')"

text \<open>An id generator that draws the key of \<open>old_match\<close> again.\<close>

definition same_id :: "nat \<Rightarrow> string" where
  "same_id k = ''old''"

definition clock :: "nat \<Rightarrow> string" where
  "clock k = ''2024-01-01T00:00:00.000Z''"

definition phone_request :: "string \<Rightarrow> item_request" where
  "phone_request t =
     \<lparr> req_title = Some ''iPhone 13 black'', req_description = Some ''cracked screen'',
       req_category = Some ''electronics'', req_type = Some t,
       req_location = Some ''library'', req_userId = ''u1'' \<rparr>"

section \<open>Facts about numbers, strings and maps\<close>

lemma round_half_even_nonneg: "0 \<le> x \<Longrightarrow> 0 \<le> round_half_even x"
  by (auto simp: round_half_even_def Let_def)

lemma ulp_pos: "0 < ulp x"
  by (simp add: ulp_def)

text \<open>
  The rounding is the intended one: for \<open>x \<noteq> 0\<close> the exponent satisfies
  \<open>2 ^ e \<le> \<bar>x\<bar> < 2 ^ (e + 1)\<close>, so the scaled value \<open>\<bar>x\<bar> / ulp x\<close> has 53 bits, and
  the result is a multiple of \<open>ulp x\<close> at most half an \<open>ulp\<close> away from \<open>x\<close>.
\<close>

lemma bitlen_powi_bounds:
  assumes "0 < p"
  shows "(2::rat) powi (bitlen p - 1) \<le> of_int p \<and> of_int p < (2::rat) powi bitlen p"
proof -
  from assms have b: "1 \<le> bitlen p"
    using bitlen_eq_zero_iff [of p] bitlen_nonneg [of p] by linarith
  from bitlen_bounds [OF assms]
  have l: "2 ^ nat (bitlen p - 1) \<le> p" and u: "p < 2 ^ nat (bitlen p)" by simp_all
  have "(of_int (2 ^ nat (bitlen p - 1)) :: rat) \<le> of_int p"
    using l by (simp only: of_int_le_iff)
  moreover have "(of_int p :: rat) < of_int (2 ^ nat (bitlen p))"
    using u by (simp only: of_int_less_iff)
  ultimately show ?thesis using b by (simp add: power_int_def)
qed

lemma float_exponent_bounds:
  assumes "x \<noteq> 0"
  shows "2 powi float_exponent x \<le> \<bar>x\<bar> \<and> \<bar>x\<bar> < 2 powi (float_exponent x + 1)"
proof -
  obtain p q where pq: "quotient_of \<bar>x\<bar> = (p, q)" by (cases "quotient_of \<bar>x\<bar>")
  then have q: "0 < q" by (rule quotient_of_denom_pos)
  from pq have x: "\<bar>x\<bar> = of_int p / of_int q" by (rule quotient_of_div)
  from assms have "0 < \<bar>x\<bar>" by simp
  with x q have p: "0 < p" by (simp add: zero_less_divide_iff)
  let ?d = "bitlen p - bitlen q"
  note bp = bitlen_powi_bounds [OF p] and bq = bitlen_powi_bounds [OF q]
  have qr: "(0::rat) < of_int q" using q by simp
  show ?thesis
  proof (cases "of_int q * (2::rat) powi ?d \<le> of_int p")
    case True
    then have e: "float_exponent x = ?d" by (simp add: float_exponent_def pq)
    have "(of_int p :: rat) < 2 powi bitlen p" using bp by simp
    also have "\<dots> = 2 powi (bitlen q - 1) * 2 powi (?d + 1)"
      by (simp add: power_int_add [symmetric])
    also have "\<dots> \<le> of_int q * 2 powi (?d + 1)"
      using bq by (simp add: mult_right_mono)
    finally have "(of_int p :: rat) < of_int q * 2 powi (?d + 1)" .
    with True qr show ?thesis
      by (simp add: e x pos_le_divide_eq pos_divide_less_eq mult.commute)
  next
    case False
    then have e: "float_exponent x = ?d - 1" by (simp add: float_exponent_def pq)
    have "of_int q * (2::rat) powi (?d - 1) \<le> 2 powi bitlen q * 2 powi (?d - 1)"
      using bq by (simp add: mult_right_mono)
    also have "\<dots> = 2 powi (bitlen p - 1)"
      by (simp add: power_int_add [symmetric])
    also have "\<dots> \<le> of_int p" using bp by simp
    finally have "of_int q * (2::rat) powi (?d - 1) \<le> of_int p" .
    with False qr show ?thesis
      by (simp add: e x pos_le_divide_eq pos_divide_less_eq mult.commute)
  qed
qed

lemma round_half_even_error: "\<bar>of_int (round_half_even y) - y\<bar> \<le> 1 / 2"
proof -
  have "of_int \<lfloor>y\<rfloor> \<le> y" and "y < of_int \<lfloor>y\<rfloor> + 1" by linarith+
  then show ?thesis by (auto simp: round_half_even_def Let_def)
qed

lemma round_half_even_of_int: "round_half_even (of_int n) = n"
  by (simp add: round_half_even_def)

lemma significand_range:
  assumes "x \<noteq> 0"
  shows "2 ^ 52 \<le> \<bar>x\<bar> / ulp x \<and> \<bar>x\<bar> / ulp x < 2 ^ 53"
proof -
  let ?e = "float_exponent x"
  have u: "ulp x = 2 powi ?e / 2 ^ 52"
    by (simp add: ulp_def power_int_diff)
  have "0 < (2::rat) powi ?e" by simp
  moreover have "2 powi (?e + 1) = (2::rat) * 2 powi ?e"
    by (simp add: power_int_add)
  ultimately show ?thesis
    using float_exponent_bounds [OF assms]
    by (simp add: u pos_le_divide_eq pos_divide_less_eq)
qed

lemma round_double_error: "\<bar>round_double x - x\<bar> \<le> ulp x / 2"
proof (cases "x = 0")
  case True
  then show ?thesis using ulp_pos [of x] by (simp add: round_double_def)
next
  case False
  have u: "0 < ulp x" by (rule ulp_pos)
  have "round_double x - x = (of_int (round_half_even (x / ulp x)) - x / ulp x) * ulp x"
    using False u by (simp add: round_double_def algebra_simps)
  then have "\<bar>round_double x - x\<bar> = \<bar>of_int (round_half_even (x / ulp x)) - x / ulp x\<bar> * ulp x"
    using u by (simp add: abs_mult)
  also have "\<dots> \<le> 1 / 2 * ulp x"
    using round_half_even_error [of "x / ulp x"] u by (simp add: mult_right_mono)
  finally show ?thesis by simp
qed

lemma round_double_nonneg: "0 \<le> x \<Longrightarrow> 0 \<le> round_double x"
  by (simp add: round_double_def round_half_even_nonneg ulp_pos less_imp_le)

lemma round_double_1: "round_double 1 = 1"
  by code_simp

lemma js_lit_nonneg: "0 \<le> x \<Longrightarrow> 0 \<le> js_lit x"
  by (simp add: js_lit_def round_double_nonneg)

lemma js_add_nonneg: "0 \<le> x \<Longrightarrow> 0 \<le> y \<Longrightarrow> 0 \<le> js_add x y"
  by (simp add: js_add_def round_double_nonneg)

lemma js_mul_nonneg: "0 \<le> x \<Longrightarrow> 0 \<le> y \<Longrightarrow> 0 \<le> js_mul x y"
  by (simp add: js_mul_def round_double_nonneg)

lemma js_mul_commute: "js_mul x y = js_mul y x"
  by (simp add: js_mul_def mult.commute)

lemma js_div_same: "n \<noteq> 0 \<Longrightarrow> js_div n n = 1"
  by (simp add: js_div_def round_double_1)

lemma js_add_0_lit: "js_add 0 (js_lit (3 / 10)) = js_lit (3 / 10)"
  by code_simp

text \<open>The sum \<open>0.3 + 0.4 + 0.2 + 0.1\<close>, added from the left in binary64.\<close>

lemma identical_sum:
  "min (js_add (js_add (js_add (js_add 0 (js_lit (3 / 10))) (js_mul 1 (js_lit (4 / 10))))
          (js_mul 1 (js_lit (2 / 10)))) (js_mul 1 (js_lit (1 / 10)))) 1 = 1 - 1 / 2 ^ 53"
  by code_simp

lemma split_ws_nonempty: "split_ws s \<noteq> []"
  by (subst split_ws.simps) simp


lemma set_foldl_insert:
  "set (foldl (\<lambda>s x. if x \<in> set s then s else s @ [x]) acc xs) = set acc \<union> set xs"
  by (induction xs arbitrary: acc) auto

lemma distinct_foldl_insert:
  "distinct acc \<Longrightarrow> distinct (foldl (\<lambda>s x. if x \<in> set s then s else s @ [x]) acc xs)"
  by (induction xs arbitrary: acc) auto

lemma set_Set_to_array: "set (Set_to_array xs) = set xs"
  by (simp add: Set_to_array_def set_foldl_insert)

lemma distinct_Set_to_array: "distinct (Set_to_array xs)"
  by (simp add: Set_to_array_def distinct_foldl_insert)

lemma length_Set_to_array: "length (Set_to_array xs) = card (set xs)"
  using distinct_card [OF distinct_Set_to_array, of xs] by (simp add: set_Set_to_array)

lemma length_union_words: "length (union_words xs ys) = card (set xs \<union> set ys)"
  by (simp add: union_words_def length_Set_to_array)

lemma union_words_nonempty: "0 < length (union_words (words_of a) (words_of b))"
proof -
  have "words_of a \<noteq> []" by (simp add: words_of_def split_ws_nonempty)
  then have "set (words_of a) \<union> set (words_of b) \<noteq> {}" by simp
  then show ?thesis by (simp add: length_union_words card_gt_0_iff)
qed

lemma length_intersection_words_distinct:
  assumes "distinct xs"
  shows "length (intersection_words xs ys) = card (set xs \<inter> set ys)"
proof -
  have "distinct (intersection_words xs ys)"
    using assms by (simp add: intersection_words_def)
  then have "length (intersection_words xs ys) = card (set (intersection_words xs ys))"
    by (simp add: distinct_card)
  also have "set (intersection_words xs ys) = set xs \<inter> set ys"
    by (auto simp: intersection_words_def)
  finally show ?thesis .
qed

lemma Map_set_keys: "set (Map_keys (Map_set k v m)) = insert k (set (Map_keys m))"
  by (induction k v m rule: Map_set.induct) (auto simp: Map_keys_def)

lemma Map_set_fresh: "k \<notin> set (Map_keys m) \<Longrightarrow> Map_set k v m = m @ [(k, v)]"
  by (induction k v m rule: Map_set.induct) (auto simp: Map_keys_def)

lemma Map_set_values: "set (Map_values (Map_set k v m)) \<subseteq> insert v (set (Map_values m))"
  by (induction k v m rule: Map_set.induct) (auto simp: Map_values_def)

lemma Map_set_append:
  "k \<notin> fst ` set m \<Longrightarrow> Map_set k v (m @ acc) = m @ Map_set k v acc"
  by (induction m) auto

lemma Map_get_Map_set:
  "Map_get (Map_set k v m) k' = (if k' = k then Some v else Map_get m k')"
  by (induction k v m rule: Map_set.induct) (auto simp: Map_get_def)

lemma Map_get_foldl_other:
  "k \<notin> match_id ` set rs \<Longrightarrow>
   Map_get (foldl (\<lambda>m r. Map_set (match_id r) r m) ms rs) k = Map_get ms k"
  by (induction rs arbitrary: ms) (auto simp: Map_get_Map_set)

section \<open>Text similarity: what the code computes\<close>

text \<open>
  The quotient is never negative. When the first text has no repeated word, the filter is
  the set intersection and the result is the Jaccard coefficient; a text without repeated
  words has similarity 1 with itself.
\<close>

lemma similarity_nonneg: "0 \<le> calculateTextSimilarity a b"
  by (simp add: calculateTextSimilarity_def Let_def js_div_def round_double_nonneg)

lemma similarity_distinct_jaccard:
  "distinct (words_of a) \<Longrightarrow> calculateTextSimilarity a b = jaccard a b"
  by (simp add: calculateTextSimilarity_def Let_def jaccard_def length_union_words
      length_intersection_words_distinct)

lemma similarity_self_distinct:
  assumes "distinct (words_of a)"
  shows "calculateTextSimilarity a a = 1"
proof -
  let ?n = "length (words_of a)"
  have i: "length (intersection_words (words_of a) (words_of a)) = ?n"
    by (simp add: intersection_words_def)
  have u: "length (union_words (words_of a) (words_of a)) = ?n"
    using assms by (simp add: length_union_words distinct_card)
  have "0 < ?n" using union_words_nonempty [of a a] u by simp
  then show ?thesis
    by (simp add: calculateTextSimilarity_def Let_def i u js_div_same)
qed

text \<open>Letters and spaces of the Latin-1 supplement are folded and split as in the code.\<close>

lemma latin1_examples:
  "toLowerCase [CHR 0xC9, CHR ''T'', CHR 0xC9] = [CHR 0xE9, CHR ''t'', CHR 0xE9] \<and>
   toLowerCase [CHR 0xD7, CHR 0xDF, CHR ''Z''] = [CHR 0xD7, CHR 0xDF, CHR ''z''] \<and>
   words_of [CHR ''a'', CHR 0xA0, CHR ''B''] = [''a'', ''b''] \<and>
   calculateTextSimilarity [CHR 0xC9, CHR ''T'', CHR 0xC9] [CHR 0xE9, CHR ''t'', CHR 0xE9] = 1 \<and>
   calculateTextSimilarity [CHR ''a'', CHR 0xA0, CHR ''b''] ''a b'' = 1"
  by code_simp

text \<open>
  C1. The similarity is claimed to be the Jaccard coefficient of the two token sets, a
  value between 0 and 1. The code counts a repeated word of the first text once per
  occurrence: for \<open>"a a"\<close> against \<open>"a"\<close> the filter keeps two words, the union has
  one, and the result is 2, where the Jaccard coefficient of \<open>{a}\<close> and \<open>{a}\<close> is 1.
\<close>

theorem similarity_exceeds_jaccard:
  "calculateTextSimilarity ''a a'' ''a'' = 2 \<and> jaccard ''a a'' ''a'' = 1"
  by code_simp

text \<open>
  C2. The similarity is claimed to be symmetric. With a repeated word on one side only,
  the two orders differ: \<open>"red red bag"\<close> against \<open>"red bag"\<close> gives 3/2, the other
  order gives 1.
\<close>

theorem similarity_asymmetric:
  "calculateTextSimilarity ''red red bag'' ''red bag'' = 3 / 2 \<and>
   calculateTextSimilarity ''red bag'' ''red red bag'' = 1"
  by code_simp

text \<open>
  C8. The similarity of a text with itself is claimed to be 1 whenever the text has a
  token. \<open>"keys keys"\<close> has the token set \<open>{keys}\<close>, and its similarity with itself
  is 2.
\<close>

theorem similarity_self_exceeds_one:
  "set (words_of ''keys keys'') = {''keys''} \<and>
   calculateTextSimilarity ''keys keys'' ''keys keys'' = 2"
  by code_simp


section \<open>Match confidence\<close>

lemma confidence_bounds:
  "0 \<le> calculateMatchConfidence item1 item2 \<and> calculateMatchConfidence item1 item2 \<le> 1"
  by (simp add: calculateMatchConfidence_def Let_def js_add_nonneg js_mul_nonneg
      js_lit_nonneg similarity_nonneg)

text \<open>
  C3, as the code has it. The confidence is the minimum of 1 and the sum, added from the
  left in binary64, of 0.3 for equal categories (else 0), 0.4 times the title similarity,
  0.2 times the description similarity and 0.1 times the location similarity. For two
  items with the same category, title, description and location, where none of the three
  texts, lowercased and split at whitespace, yields the same piece twice, the three
  similarities are 1 and the sum is \<open>0.3 + 0.4 + 0.2 + 0.1\<close>, which rounds to
  \<open>1 - 2 ^ -53\<close> (printed \<open>0.9999999999999999\<close>): \<open>0.7 + 0.2\<close> is already below
  0.9. The empty piece counts as a piece: a text with whitespace at both ends yields it
  twice and is not covered (\<open>padded_text_scores_one\<close> below).
\<close>

theorem confidence_formula:
  "calculateMatchConfidence item1 item2 =
     min 1 (js_add (js_add (js_add
              (if category item1 = category item2 then js_lit (3 / 10) else 0)
              (js_mul (js_lit (4 / 10)) (calculateTextSimilarity (title item1) (title item2))))
              (js_mul (js_lit (2 / 10))
                 (calculateTextSimilarity (description item1) (description item2))))
              (js_mul (js_lit (1 / 10))
                 (calculateTextSimilarity (location item1) (location item2))))
   \<and> (category item1 = category item2 \<and> title item1 = title item2 \<and>
        description item1 = description item2 \<and> location item1 = location item2 \<and>
        distinct (words_of (title item1)) \<and> distinct (words_of (description item1)) \<and>
        distinct (words_of (location item1)) \<longrightarrow>
        calculateMatchConfidence item1 item2 = 1 - 1 / 2 ^ 53)"
proof (intro conjI impI)
  show "calculateMatchConfidence item1 item2 =
     min 1 (js_add (js_add (js_add
              (if category item1 = category item2 then js_lit (3 / 10) else 0)
              (js_mul (js_lit (4 / 10)) (calculateTextSimilarity (title item1) (title item2))))
              (js_mul (js_lit (2 / 10))
                 (calculateTextSimilarity (description item1) (description item2))))
              (js_mul (js_lit (1 / 10))
                 (calculateTextSimilarity (location item1) (location item2))))"
    by (simp add: calculateMatchConfidence_def Let_def js_add_0_lit js_mul_commute min.commute)
next
  assume a: "category item1 = category item2 \<and> title item1 = title item2 \<and>
        description item1 = description item2 \<and> location item1 = location item2 \<and>
        distinct (words_of (title item1)) \<and> distinct (words_of (description item1)) \<and>
        distinct (words_of (location item1))"
  then have "calculateTextSimilarity (title item1) (title item2) = 1"
    and "calculateTextSimilarity (description item1) (description item2) = 1"
    and "calculateTextSimilarity (location item1) (location item2) = 1"
    using similarity_self_distinct by metis+
  with a show "calculateMatchConfidence item1 item2 = 1 - 1 / 2 ^ 53"
    by (simp only: calculateMatchConfidence_def Let_def simp_thms if_True identical_sum)
qed

theorem confidence_formula_witness:
  "category lost_phone = category found_twin \<and> title lost_phone = title found_twin \<and>
   description lost_phone = description found_twin \<and>
   location lost_phone = location found_twin \<and>
   distinct (words_of (title lost_phone)) \<and> distinct (words_of (description lost_phone)) \<and>
   distinct (words_of (location lost_phone)) \<and>
   calculateMatchConfidence lost_phone found_twin = 1 - 1 / 2 ^ 53"
proof -
  have h: "category lost_phone = category found_twin \<and> title lost_phone = title found_twin \<and>
        description lost_phone = description found_twin \<and>
        location lost_phone = location found_twin \<and>
        distinct (words_of (title lost_phone)) \<and> distinct (words_of (description lost_phone)) \<and>
        distinct (words_of (location lost_phone))"
    by code_simp
  with confidence_formula [of lost_phone found_twin]
  have "calculateMatchConfidence lost_phone found_twin = 1 - 1 / 2 ^ 53" by blast
  with h show ?thesis by blast
qed

text \<open>
  C3, as claimed: two items with identical category, title, description and location
  have confidence 1.0. The lost phone and its found twin agree in all four fields, and
  their confidence is \<open>9007199254740991 / 9007199254740992\<close>.
\<close>

theorem identical_items_below_one:
  "category lost_phone = category found_twin \<and> title lost_phone = title found_twin \<and>
   description lost_phone = description found_twin \<and>
   location lost_phone = location found_twin \<and>
   calculateMatchConfidence lost_phone found_twin = 9007199254740991 / 9007199254740992 \<and>
   calculateMatchConfidence lost_phone found_twin \<noteq> 1"
  by code_simp

text \<open>
  Whitespace at both ends leaves the empty piece at both ends of the split; then the
  similarity of the text with itself is 3/2 and identical items score 1.
\<close>

lemma padded_text_scores_one:
  "words_of '' keys '' = [[], ''keys'', []] \<and>
   calculateTextSimilarity '' keys '' '' keys '' = 3 / 2 \<and>
   calculateMatchConfidence padded_keys padded_keys = 1"
  by code_simp

section \<open>Candidate search\<close>

lemma oppositeType_neq: "oppositeType item \<noteq> item_type item"
  by (simp add: oppositeType_def)

lemma count_list_filter:
  "count_list (filter P xs) c = (if P c then count_list xs c else 0)"
  by (induction xs) auto

text \<open>
  C5. The candidates are exactly the stored items whose type is the opposite type, whose
  category is the new item's and whose status is \<open>active\<close>, each as often as the store
  holds it. The opposite type is \<open>found\<close> for \<open>lost\<close> and \<open>lost\<close> for \<open>found\<close>, and it
  never equals the new item's type, so no candidate has the same type as the new item and
  none is inactive.
\<close>

theorem potentialMatches_exact:
  "(c \<in> set (potentialMatches st item) \<longleftrightarrow>
      c \<in> set (Map_values (items st)) \<and> item_type c = oppositeType item \<and>
      category c = category item \<and> status c = ''active'')
   \<and> (c \<in> set (potentialMatches st item) \<longrightarrow>
        item_type c \<noteq> item_type item \<and> status c = ''active'')
   \<and> (item_type item = ''lost'' \<longrightarrow> oppositeType item = ''found'')
   \<and> (item_type item = ''found'' \<longrightarrow> oppositeType item = ''lost'')
   \<and> count_list (potentialMatches st item) c =
       (if item_type c = oppositeType item \<and> category c = category item \<and>
           status c = ''active''
        then count_list (Map_values (items st)) c else 0)"
  using oppositeType_neq [of item]
  by (auto simp: potentialMatches_def oppositeType_def count_list_filter)

theorem potentialMatches_exact_witness:
  "found_phone \<in> set (potentialMatches phone_storage lost_phone) \<and>
   item_type found_phone \<noteq> item_type lost_phone \<and> status found_phone = ''active'' \<and>
   item_type lost_phone = ''lost'' \<and> oppositeType lost_phone = ''found'' \<and>
   item_type found_phone = ''found'' \<and> oppositeType found_phone = ''lost'' \<and>
   category recovered_phone = category lost_phone \<and>
   recovered_phone \<in> set (Map_values (items phone_storage)) \<and>
   recovered_phone \<notin> set (potentialMatches phone_storage lost_phone)"
proof -
  have h: "found_phone \<in> set (Map_values (items phone_storage)) \<and>
      item_type found_phone = oppositeType lost_phone \<and>
      category found_phone = category lost_phone \<and> status found_phone = ''active'' \<and>
      item_type lost_phone = ''lost'' \<and> item_type found_phone = ''found'' \<and>
      category recovered_phone = category lost_phone \<and>
      recovered_phone \<in> set (Map_values (items phone_storage)) \<and>
      status recovered_phone \<noteq> ''active''"
    by code_simp
  show ?thesis
    using h potentialMatches_exact [of found_phone phone_storage lost_phone]
      potentialMatches_exact [of recovered_phone phone_storage lost_phone]
      potentialMatches_exact [of found_phone phone_storage found_phone]
    by blast
qed

section \<open>Recording matches\<close>

lemma match_loop_out:
  "fst (match_loop generateId now item cs n ms) =
     map (\<lambda>(k, c). matchRecord (generateId k) (now k) item c (calculateMatchConfidence item c))
       (enumerate n (filter (\<lambda>c. js_lit (6 / 10) < calculateMatchConfidence item c) cs))"
  by (induction cs arbitrary: n ms) (simp_all add: Let_def split_beta)

lemma match_loop_keys:
  "set (Map_keys (snd (match_loop generateId now item cs n ms))) =
     set (Map_keys ms) \<union> match_id ` set (fst (match_loop generateId now item cs n ms))"
  by (induction cs arbitrary: n ms)
    (auto simp: Let_def split_beta Map_set_keys matchRecord_def)

lemma match_loop_values:
  "r \<in> set (Map_values (snd (match_loop generateId now item cs n ms))) \<Longrightarrow>
   r \<in> set (Map_values ms) \<or>
   (\<exists>c k. c \<in> set cs \<and>
      r = matchRecord (generateId k) (now k) item c (calculateMatchConfidence item c))"
proof (induction cs arbitrary: n ms)
  case Nil
  then show ?case by simp
next
  case (Cons c cs)
  show ?case
  proof (cases "js_lit (6 / 10) < calculateMatchConfidence item c")
    case True
    let ?r = "matchRecord (generateId n) (now n) item c (calculateMatchConfidence item c)"
    from Cons.prems True
    have "r \<in> set (Map_values (snd (match_loop generateId now item cs (Suc n)
             (Map_set (generateId n) ?r ms))))"
      by (simp add: Let_def split_beta)
    from Cons.IH [OF this] show ?thesis
      using Map_set_values [of "generateId n" ?r ms] by auto
  next
    case False
    with Cons.prems
    have "r \<in> set (Map_values (snd (match_loop generateId now item cs n ms)))" by simp
    from Cons.IH [OF this] show ?thesis by auto
  qed
qed

lemma match_loop_append:
  "\<forall>k. generateId k \<notin> fst ` set m \<Longrightarrow>
   \<exists>new. snd (match_loop generateId now item cs n (m @ acc)) = m @ new"
proof (induction cs arbitrary: n acc)
  case Nil
  then show ?case by simp
next
  case (Cons c cs)
  show ?case
  proof (cases "js_lit (6 / 10) < calculateMatchConfidence item c")
    case True
    have "generateId n \<notin> fst ` set m" using Cons.prems by blast
    then show ?thesis
      using True Cons.IH [OF Cons.prems] by (simp add: Let_def split_beta Map_set_append)
  next
    case False
    then show ?thesis using Cons.IH [OF Cons.prems] by simp
  qed
qed

lemma match_loop_store:
  "snd (match_loop generateId now item cs n ms) =
     foldl (\<lambda>m r. Map_set (match_id r) r m) ms (fst (match_loop generateId now item cs n ms))"
  by (induction cs arbitrary: n ms) (simp_all add: Let_def split_beta matchRecord_def)

text \<open>
  C4, as the code has it. The records returned by a run are, in the order of the
  candidates, one record for each candidate whose confidence is strictly above the
  literal 0.6, and none for the others; the match store after the run is the store before
  it with each returned record set under its id, in that order. The record made for a
  candidate carries the computed confidence, the status \<open>pending\<close> and the tag \<open>ai\<close>.
  When the new item has type \<open>lost\<close> or \<open>found\<close>, the candidate has the other of the
  two types, \<open>lostItemId\<close> is the id of the one of type \<open>lost\<close> and \<open>foundItemId\<close> the
  id of the one of type \<open>found\<close>.
\<close>

theorem findPotentialMatches_records:
  "fst (findPotentialMatches generateId now st item) =
     map (\<lambda>(k, c). matchRecord (generateId k) (now k) item c (calculateMatchConfidence item c))
       (enumerate 0 (filter (\<lambda>c. js_lit (6 / 10) < calculateMatchConfidence item c)
                      (potentialMatches st item)))
   \<and> matches (snd (findPotentialMatches generateId now st item)) =
       foldl (\<lambda>m r. Map_set (match_id r) r m) (matches st)
         (fst (findPotentialMatches generateId now st item))
   \<and> (\<forall>c k. let r = matchRecord (generateId k) (now k) item c (calculateMatchConfidence item c)
        in match_id r = generateId k \<and>
           confidence r = calculateMatchConfidence item c \<and>
           match_status r = ''pending'' \<and> match_method r = ''ai'')
   \<and> (item_type item = ''lost'' \<or> item_type item = ''found'' \<longrightarrow>
       (\<forall>c \<in> set (potentialMatches st item). \<forall>k.
          let r = matchRecord (generateId k) (now k) item c (calculateMatchConfidence item c)
          in (item_type item = ''lost'' \<and> item_type c = ''found'' \<and>
              lostItemId r = item_id item \<and> foundItemId r = item_id c) \<or>
             (item_type item = ''found'' \<and> item_type c = ''lost'' \<and>
              lostItemId r = item_id c \<and> foundItemId r = item_id item)))"
proof (intro conjI impI ballI allI)
  show "fst (findPotentialMatches generateId now st item) =
     map (\<lambda>(k, c). matchRecord (generateId k) (now k) item c (calculateMatchConfidence item c))
       (enumerate 0 (filter (\<lambda>c. js_lit (6 / 10) < calculateMatchConfidence item c)
                      (potentialMatches st item)))"
    by (simp add: findPotentialMatches_def split_beta match_loop_out)
next
  show "matches (snd (findPotentialMatches generateId now st item)) =
       foldl (\<lambda>m r. Map_set (match_id r) r m) (matches st)
         (fst (findPotentialMatches generateId now st item))"
    using match_loop_store [of generateId now item "potentialMatches st item" 0 "matches st"]
    by (simp add: findPotentialMatches_def split_beta)
next
  fix c k
  show "let r = matchRecord (generateId k) (now k) item c (calculateMatchConfidence item c)
        in match_id r = generateId k \<and>
           confidence r = calculateMatchConfidence item c \<and>
           match_status r = ''pending'' \<and> match_method r = ''ai''"
    by (simp add: matchRecord_def)
next
  fix c k
  assume ty: "item_type item = ''lost'' \<or> item_type item = ''found''"
    and "c \<in> set (potentialMatches st item)"
  then have t: "item_type c = oppositeType item" by (simp add: potentialMatches_def)
  show "let r = matchRecord (generateId k) (now k) item c (calculateMatchConfidence item c)
          in (item_type item = ''lost'' \<and> item_type c = ''found'' \<and>
              lostItemId r = item_id item \<and> foundItemId r = item_id c) \<or>
             (item_type item = ''found'' \<and> item_type c = ''lost'' \<and>
              lostItemId r = item_id c \<and> foundItemId r = item_id item)"
    using ty t by (auto simp: matchRecord_def oppositeType_def)
qed

theorem findPotentialMatches_records_witness:
  "(item_type lost_phone = ''lost'' \<or> item_type lost_phone = ''found'') \<and>
   found_phone \<in> set (potentialMatches phone_storage lost_phone) \<and>
   item_type lost_phone = ''lost'' \<and> item_type found_phone = ''found'' \<and>
   fst (findPotentialMatches (ids ''m'') clock phone_storage lost_phone) =
     [\<lparr> match_id = ''m'', lostItemId = ''A'', foundItemId = ''B'',
        confidence = 6605279453476727 / 9007199254740992, match_status = ''pending'',
        createdAt = ''2024-01-01T00:00:00.000Z'', match_method = ''ai'' \<rparr>] \<and>
   Map_get (matches (snd (findPotentialMatches (ids ''m'') clock phone_storage lost_phone)))
      ''m'' =
     Some \<lparr> match_id = ''m'', lostItemId = ''A'', foundItemId = ''B'',
        confidence = 6605279453476727 / 9007199254740992, match_status = ''pending'',
        createdAt = ''2024-01-01T00:00:00.000Z'', match_method = ''ai'' \<rparr> \<and>
   lostItemId (matchRecord (ids ''m'' 0) (clock 0) lost_phone found_phone
      (calculateMatchConfidence lost_phone found_phone)) = item_id lost_phone \<and>
   foundItemId (matchRecord (ids ''m'' 0) (clock 0) lost_phone found_phone
      (calculateMatchConfidence lost_phone found_phone)) = item_id found_phone"
proof -
  have h0: "item_type lost_phone = ''lost'' \<or> item_type lost_phone = ''found''" by code_simp
  have h1: "found_phone \<in> set (potentialMatches phone_storage lost_phone)" by code_simp
  have h2: "item_type lost_phone = ''lost''" by code_simp
  have h3: "item_type found_phone = ''found''" by code_simp
  have h4: "item_type lost_phone \<noteq> ''found''" by code_simp
  have d: "fst (findPotentialMatches (ids ''m'') clock phone_storage lost_phone) =
     [\<lparr> match_id = ''m'', lostItemId = ''A'', foundItemId = ''B'',
        confidence = 6605279453476727 / 9007199254740992, match_status = ''pending'',
        createdAt = ''2024-01-01T00:00:00.000Z'', match_method = ''ai'' \<rparr>]"
    by code_simp
  have g: "Map_get (matches (snd (findPotentialMatches (ids ''m'') clock phone_storage
      lost_phone))) ''m'' =
     Some \<lparr> match_id = ''m'', lostItemId = ''A'', foundItemId = ''B'',
        confidence = 6605279453476727 / 9007199254740992, match_status = ''pending'',
        createdAt = ''2024-01-01T00:00:00.000Z'', match_method = ''ai'' \<rparr>"
    by code_simp
  note t = findPotentialMatches_records [of "ids ''m''" clock phone_storage lost_phone]
  from t h0 have "\<forall>c \<in> set (potentialMatches phone_storage lost_phone). \<forall>k.
          let r = matchRecord (ids ''m'' k) (clock k) lost_phone c
                    (calculateMatchConfidence lost_phone c)
          in (item_type lost_phone = ''lost'' \<and> item_type c = ''found'' \<and>
              lostItemId r = item_id lost_phone \<and> foundItemId r = item_id c) \<or>
             (item_type lost_phone = ''found'' \<and> item_type c = ''lost'' \<and>
              lostItemId r = item_id c \<and> foundItemId r = item_id lost_phone)"
    by blast
  from bspec [OF this h1]
  have "let r = matchRecord (ids ''m'' 0) (clock 0) lost_phone found_phone
                    (calculateMatchConfidence lost_phone found_phone)
          in (item_type lost_phone = ''lost'' \<and> item_type found_phone = ''found'' \<and>
              lostItemId r = item_id lost_phone \<and> foundItemId r = item_id found_phone) \<or>
             (item_type lost_phone = ''found'' \<and> item_type found_phone = ''lost'' \<and>
              lostItemId r = item_id found_phone \<and> foundItemId r = item_id lost_phone)"
    by (rule spec)
  then have "lostItemId (matchRecord (ids ''m'' 0) (clock 0) lost_phone found_phone
      (calculateMatchConfidence lost_phone found_phone)) = item_id lost_phone"
    and "foundItemId (matchRecord (ids ''m'' 0) (clock 0) lost_phone found_phone
      (calculateMatchConfidence lost_phone found_phone)) = item_id found_phone"
    unfolding Let_def using h4 by blast+
  with h0 h1 h2 h3 d g show ?thesis by (intro conjI)
qed

text \<open>
  C4, as claimed for every new item: \<open>foundItemId\<close> is the id of whichever of the two
  items has type \<open>found\<close>. For the stored item \<open>S\<close> of type \<open>stolen\<close> the candidate is
  the lost phone \<open>A\<close>; neither item has type \<open>found\<close>, and the record created has
  \<open>A\<close>, a lost item, as \<open>foundItemId\<close>.
\<close>

theorem third_type_found_is_lost:
  "item_type stolen_phone = ''stolen'' \<and>
   potentialMatches stolen_storage stolen_phone = [lost_phone] \<and>
   item_type lost_phone = ''lost'' \<and> item_id lost_phone = ''A'' \<and>
   findPotentialMatches (ids ''m'') clock stolen_storage stolen_phone =
     ([\<lparr> match_id = ''m'', lostItemId = ''A'', foundItemId = ''A'',
         confidence = 9007199254740991 / 9007199254740992, match_status = ''pending'',
         createdAt = ''2024-01-01T00:00:00.000Z'', match_method = ''ai'' \<rparr>],
      stolen_storage\<lparr>matches :=
        [(''m'', \<lparr> match_id = ''m'', lostItemId = ''A'', foundItemId = ''A'',
         confidence = 9007199254740991 / 9007199254740992, match_status = ''pending'',
         createdAt = ''2024-01-01T00:00:00.000Z'', match_method = ''ai'' \<rparr>)]\<rparr>)"
  by code_simp

text \<open>
  The comparison with 0.6 is strict: the two bags have confidence
  \<open>0.3 + 0.5 * 0.4 + 0.5 * 0.2 + 0 * 0.1\<close>, which is the literal 0.6 itself, and the run
  creates no record for them.
\<close>

lemma threshold_is_strict:
  "potentialMatches bag_storage lost_bag = [found_bag] \<and>
   calculateMatchConfidence lost_bag found_bag = js_lit (6 / 10) \<and>
   findPotentialMatches (ids ''m'') clock bag_storage lost_bag = ([], bag_storage)"
  by code_simp

text \<open>
  C9, as the code has it. A run leaves the item store as it was. In the match store every
  entry whose key is not the id of a record made in this run is still there with the same
  record. When no id drawn during the run is already a key of the match store, the run
  extends the store at its end and every entry present before is kept.
\<close>

theorem findPotentialMatches_appends:
  "items (snd (findPotentialMatches generateId now st item)) = items st \<and>
   (\<forall>k r. Map_get (matches st) k = Some r \<longrightarrow>
      k \<notin> match_id ` set (fst (findPotentialMatches generateId now st item)) \<longrightarrow>
      Map_get (matches (snd (findPotentialMatches generateId now st item))) k = Some r) \<and>
   ((\<forall>k. generateId k \<notin> set (Map_keys (matches st))) \<longrightarrow>
      (\<exists>new. matches (snd (findPotentialMatches generateId now st item)) =
         matches st @ new) \<and>
      (\<forall>k r. Map_get (matches st) k = Some r \<longrightarrow>
         Map_get (matches (snd (findPotentialMatches generateId now st item))) k = Some r))"
proof (intro conjI impI allI)
  let ?st' = "snd (findPotentialMatches generateId now st item)"
  show "items ?st' = items st"
    by (simp add: findPotentialMatches_def split_beta)
next
  fix k r
  let ?out = "fst (findPotentialMatches generateId now st item)"
  let ?st' = "snd (findPotentialMatches generateId now st item)"
  assume old: "Map_get (matches st) k = Some r" and k: "k \<notin> match_id ` set ?out"
  have "matches ?st' = foldl (\<lambda>m r. Map_set (match_id r) r m) (matches st) ?out"
    using match_loop_store [of generateId now item "potentialMatches st item" 0 "matches st"]
    by (simp add: findPotentialMatches_def split_beta)
  then show "Map_get (matches ?st') k = Some r"
    using old Map_get_foldl_other [OF k] by simp
next
  let ?st' = "snd (findPotentialMatches generateId now st item)"
  assume "\<forall>k. generateId k \<notin> set (Map_keys (matches st))"
  then have f: "\<forall>k. generateId k \<notin> fst ` set (matches st)"
    by (simp add: Map_keys_def)
  obtain new where "snd (match_loop generateId now item (potentialMatches st item) 0
      (matches st @ [])) = matches st @ new"
    using match_loop_append [OF f] by blast
  then have "matches ?st' = matches st @ new"
    by (simp add: findPotentialMatches_def split_beta)
  then show "\<exists>new. matches ?st' = matches st @ new" ..
next
  fix k r
  let ?st' = "snd (findPotentialMatches generateId now st item)"
  assume "\<forall>k. generateId k \<notin> set (Map_keys (matches st))"
    and old: "Map_get (matches st) k = Some r"
  then have f: "\<forall>k. generateId k \<notin> fst ` set (matches st)"
    by (simp add: Map_keys_def)
  obtain new where "snd (match_loop generateId now item (potentialMatches st item) 0
      (matches st @ [])) = matches st @ new"
    using match_loop_append [OF f] by blast
  then have "matches ?st' = matches st @ new"
    by (simp add: findPotentialMatches_def split_beta)
  with old show "Map_get (matches ?st') k = Some r"
    by (simp add: Map_get_def)
qed

theorem findPotentialMatches_appends_witness:
  "(\<forall>k. ids ''m'' k \<notin> set (Map_keys (matches matched_storage))) \<and>
   Map_get (matches matched_storage) ''old'' = Some old_match \<and>
   ''old'' \<notin> match_id ` set (fst (findPotentialMatches (ids ''m'') clock matched_storage
      lost_phone)) \<and>
   items (snd (findPotentialMatches (ids ''m'') clock matched_storage lost_phone)) =
     items matched_storage \<and>
   Map_get (matches (snd (findPotentialMatches (ids ''m'') clock matched_storage lost_phone)))
     ''old'' = Some old_match \<and>
   Map_keys (matches (snd (findPotentialMatches (ids ''m'') clock matched_storage lost_phone))) =
     [''old'', ''m'']"
proof -
  have f: "\<forall>k. ids ''m'' k \<notin> set (Map_keys (matches matched_storage))"
    by (simp add: ids_def matched_storage_def Map_keys_def)
  have g: "Map_get (matches matched_storage) ''old'' = Some old_match"
    by (simp add: matched_storage_def Map_get_def)
  have n: "''old'' \<notin> match_id ` set (fst (findPotentialMatches (ids ''m'') clock
      matched_storage lost_phone))"
    by code_simp
  have k: "Map_keys (matches (snd (findPotentialMatches (ids ''m'') clock matched_storage
      lost_phone))) = [''old'', ''m'']"
    by code_simp
  from findPotentialMatches_appends [of "ids ''m''" clock matched_storage lost_phone] f g n k
  show ?thesis by blast
qed

text \<open>
  C9, as claimed: a run never updates or removes an existing match. \<open>Map.set\<close> checks
  nothing: when \<open>generateId\<close> draws the key \<open>old\<close> of a stored record again, the new
  record takes its place and the confirmed match between \<open>L\<close> and \<open>B\<close> is gone.
\<close>

theorem drawn_key_replaces_record:
  "Map_get (matches matched_storage) ''old'' = Some old_match \<and>
   lostItemId old_match = ''L'' \<and> match_status old_match = ''confirmed'' \<and>
   matches (snd (findPotentialMatches same_id clock matched_storage lost_phone)) =
     [(''old'', \<lparr> match_id = ''old'', lostItemId = ''A'', foundItemId = ''B'',
         confidence = 6605279453476727 / 9007199254740992, match_status = ''pending'',
         createdAt = ''2024-01-01T00:00:00.000Z'', match_method = ''ai'' \<rparr>)] \<and>
   Map_get (matches (snd (findPotentialMatches same_id clock matched_storage lost_phone)))
     ''old'' \<noteq> Some old_match"
  by code_simp

section \<open>Submissions\<close>

text \<open>
  C7. A submission whose title, description, category or type is absent (or empty) is
  answered with status 400 and the store is returned as it was: no item is built or
  stored and no similarity is computed. Status 400 with its message is the route's
  invalid-item condition.
\<close>

theorem post_item_rejects:
  "falsy (req_title req) \<or> falsy (req_description req) \<or> falsy (req_category req) \<or>
   falsy (req_type req) \<Longrightarrow>
   post_item generateId now req st =
     (Inl (Http400 ''Title, description, category, type, and location are required''), st)"
  by (auto simp: post_item_def)

theorem post_item_rejects_witness:
  "falsy (req_title ((phone_request ''lost'')\<lparr>req_title := None\<rparr>)) \<and>
   post_item (ids ''A'') clock ((phone_request ''lost'')\<lparr>req_title := None\<rparr>) phone_storage =
     (Inl (Http400 ''Title, description, category, type, and location are required''),
      phone_storage)"
proof -
  have h: "falsy (req_title ((phone_request ''lost'')\<lparr>req_title := None\<rparr>))"
    by (simp add: falsy_def)
  then have "falsy (req_title ((phone_request ''lost'')\<lparr>req_title := None\<rparr>)) \<or>
      falsy (req_description ((phone_request ''lost'')\<lparr>req_title := None\<rparr>)) \<or>
      falsy (req_category ((phone_request ''lost'')\<lparr>req_title := None\<rparr>)) \<or>
      falsy (req_type ((phone_request ''lost'')\<lparr>req_title := None\<rparr>))"
    by (rule disjI1)
  from post_item_rejects [OF this, of "ids ''A''" clock phone_storage] h
  show ?thesis by (rule conjI [rotated])
qed

section \<open>The invariant is kept\<close>

lemma items_ok_lookup:
  assumes "items_ok st" and "c \<in> set (Map_values (items st))"
  shows "Map_get (items st) (item_id c) = Some c"
proof -
  from assms(2) obtain k where k: "(k, c) \<in> set (items st)"
    by (auto simp: Map_values_def)
  with assms(1) have "item_id c = k" by (auto simp: items_ok_def)
  moreover from assms(1) have "distinct (map fst (items st))"
    by (simp add: items_ok_def Map_keys_def)
  ultimately show ?thesis using k by (simp add: Map_get_def)
qed

lemma created_record_ok:
  assumes ok: "items_ok st"
    and stored: "Map_get (items st) (item_id item) = Some item"
    and ty: "item_type item = ''lost'' \<or> item_type item = ''found''"
    and c: "c \<in> set (potentialMatches st item)"
  shows "match_ok st (matchRecord matchId date item c (calculateMatchConfidence item c))"
proof -
  from c have cv: "c \<in> set (Map_values (items st))"
    and cat: "category c = category item"
    and ct: "item_type c = oppositeType item"
    by (simp_all add: potentialMatches_def)
  have lc: "Map_get (items st) (item_id c) = Some c"
    using ok cv by (rule items_ok_lookup)
  have ne: "item_id item \<noteq> item_id c"
  proof
    assume "item_id item = item_id c"
    with stored lc have "item = c" by (metis option.inject)
    with ct show False by (simp add: oppositeType_def split: if_splits)
  qed
  from ty show ?thesis
  proof
    assume "item_type item = ''lost''"
    then show ?thesis
      using stored lc ne cat ct confidence_bounds [of item c]
      by (simp add: match_ok_def matchRecord_def oppositeType_def)
  next
    assume "item_type item = ''found''"
    then show ?thesis
      using stored lc ne cat ct confidence_bounds [of item c]
      by (simp add: match_ok_def matchRecord_def oppositeType_def)
  qed
qed

lemma findPotentialMatches_ok:
  assumes "store_ok st"
    and "Map_get (items st) (item_id item) = Some item"
    and "item_type item = ''lost'' \<or> item_type item = ''found''"
  shows "store_ok (snd (findPotentialMatches generateId now st item))"
proof -
  let ?st' = "snd (findPotentialMatches generateId now st item)"
  have i: "items ?st' = items st"
    by (simp add: findPotentialMatches_def split_beta)
  have m: "matches ?st' =
      snd (match_loop generateId now item (potentialMatches st item) 0 (matches st))"
    by (simp add: findPotentialMatches_def split_beta)
  from assms(1) have ok: "items_ok st" by (simp add: store_ok_def)
  have "match_ok st r" if "r \<in> set (Map_values (matches ?st'))" for r
  proof -
    from that consider "r \<in> set (Map_values (matches st))"
      | c k where "c \<in> set (potentialMatches st item)"
          "r = matchRecord (generateId k) (now k) item c (calculateMatchConfidence item c)"
      unfolding m using match_loop_values by blast
    then show ?thesis
    proof cases
      case 1
      with assms(1) show ?thesis by (simp add: store_ok_def)
    next
      case 2
      then show ?thesis using created_record_ok [OF ok assms(2) assms(3)] by simp
    qed
  qed
  then show ?thesis using ok i by (simp add: store_ok_def items_ok_def match_ok_def)
qed

lemma match_ok_grow:
  assumes "match_ok st r" and "items st' = items st @ new"
  shows "match_ok st' r"
  using assms by (auto simp: match_ok_def Map_get_def split: option.splits)

lemma post_item_ok:
  assumes ok: "store_ok st" and reg: "regular generateId req st"
  shows "store_ok (snd (post_item generateId now req st))"
proof (cases "falsy (req_title req) \<or> falsy (req_description req) \<or>
    falsy (req_category req) \<or> falsy (req_type req) \<or> falsy (req_location req)")
  case True
  then show ?thesis using ok by (simp add: post_item_def)
next
  case False
  define itemId where "itemId = generateId 0"
  define item where "item =
     \<lparr> item_id = itemId,
       title = the (req_title req),
       description = the (req_description req),
       category = the (req_category req),
       item_type = the (req_type req),
       location = the (req_location req),
       userId = req_userId req,
       status = ''active'',
       tags = extractTags (the (req_title req) @ '' '' @ the (req_description req)) \<rparr>"
  define st1 where "st1 = st\<lparr>items := Map_set itemId item (items st)\<rparr>"
  have res: "snd (post_item generateId now req st) =
      snd (findPotentialMatches (\<lambda>k. generateId (Suc k)) now st1 item)"
    using False by (simp add: post_item_def Let_def split_beta st1_def item_def itemId_def)
  from reg have fresh: "itemId \<notin> set (Map_keys (items st))"
    and ty: "item_type item = ''lost'' \<or> item_type item = ''found''"
    by (auto simp: regular_def itemId_def item_def)
  have i1: "items st1 = items st @ [(itemId, item)]"
    using fresh by (simp add: st1_def Map_set_fresh)
  have m1: "matches st1 = matches st" by (simp add: st1_def)
  from ok have iok: "items_ok st" by (simp add: store_ok_def)
  have iok1: "items_ok st1"
    using iok fresh by (auto simp: items_ok_def i1 Map_keys_def item_def)
  have "store_ok st1"
    using ok iok1 match_ok_grow [OF _ i1] by (auto simp: store_ok_def m1)
  moreover have "Map_get (items st1) (item_id item) = Some item"
    using fresh
    by (simp add: i1 Map_get_def item_def Map_keys_def map_of_eq_None_iff [symmetric]
        map_add_def split: option.splits)
  ultimately show ?thesis unfolding res using ty by (rule findPotentialMatches_ok)
qed

lemma store_ok_empty: "store_ok empty_storage"
  by (simp add: store_ok_def items_ok_def empty_storage_def Map_keys_def Map_values_def)

text \<open>
  C6, as the code has it. Starting from a well-formed store (the empty store is one),
  after any sequence of regular submissions every record of the match store names a
  stored item of type \<open>lost\<close> and a stored item of type \<open>found\<close> with the same category
  and a different id, and its confidence lies between 0 and 1. Items are never changed or
  removed once stored, so what holds of the two items at creation holds afterwards.
\<close>

theorem store_ok_invariant:
  "store_ok st \<Longrightarrow> regular_run run st \<Longrightarrow> store_ok (post_items run st)"
proof (induction run arbitrary: st)
  case Nil
  then show ?case by simp
next
  case (Cons s run)
  obtain generateId now req where s: "s = (generateId, now, req)" by (cases s)
  from Cons.prems have "regular generateId req st"
    and r: "regular_run run (snd (post_item generateId now req st))"
    by (simp_all add: s)
  with Cons.prems(1) have "store_ok (snd (post_item generateId now req st))"
    by (simp add: post_item_ok)
  from Cons.IH [OF this r] show ?case by (simp add: s)
qed

theorem store_ok_invariant_witness:
  "store_ok phone_storage \<and>
   regular_run [(ids ''A'', clock, phone_request ''lost'')] phone_storage \<and>
   map (\<lambda>r. (lostItemId r, foundItemId r))
     (Map_values (matches (post_items [(ids ''A'', clock, phone_request ''lost'')]
        phone_storage))) = [(''A'', ''B'')] \<and>
   store_ok (post_items [(ids ''A'', clock, phone_request ''lost'')] phone_storage)"
proof -
  have a: "store_ok phone_storage" by code_simp
  have b: "regular_run [(ids ''A'', clock, phone_request ''lost'')] phone_storage"
    by code_simp
  have c: "map (\<lambda>r. (lostItemId r, foundItemId r))
     (Map_values (matches (post_items [(ids ''A'', clock, phone_request ''lost'')]
        phone_storage))) = [(''A'', ''B'')]"
    by code_simp
  from store_ok_invariant [OF a b] a b c show ?thesis by (intro conjI)
qed

text \<open>
  C6, as claimed: every record ever created pairs a lost item with a found item and never
  an item with itself. The route accepts any non-empty \<open>type\<close>. A submission of type
  \<open>stolen\<close> into a store that holds the lost phone \<open>A\<close> is matched against the lost
  items, and the record it creates has \<open>A\<close> as its lost item and as its found item.
\<close>

theorem unknown_type_self_match:
  "store_ok lost_storage \<and>
   ids ''S'' 0 \<notin> set (Map_keys (items lost_storage)) \<and>
   Map_values (matches (snd (post_item (ids ''S'') clock (phone_request ''stolen'')
      lost_storage))) =
     [\<lparr> match_id = ''S+'', lostItemId = ''A'', foundItemId = ''A'',
        confidence = 9007199254740991 / 9007199254740992, match_status = ''pending'',
        createdAt = ''2024-01-01T00:00:00.000Z'', match_method = ''ai'' \<rparr>] \<and>
   \<not> store_ok (snd (post_item (ids ''S'') clock (phone_request ''stolen'') lost_storage))"
  by code_simp

end
